theory Spec2Isabelle
  imports Main
begin

section \<open>Meeting activity: data model\<close>

text \<open>
  The module \<^verbatim>\<open>src/modules/meetingActivity.js\<close> keeps one collection of
  \<^verbatim>\<open>MeetingActivity\<close> documents, reacts to three socket events and returns a
  disconnect callback. The embedding below follows the module function by function.
  What the module gets from its libraries is written out as explicit state:
  \<^item> the collection is a list of documents in insertion order, with a counter for the
    next \<^verbatim>\<open>_id\<close>;
  \<^item> the users that \<^verbatim>\<open>populate\<close> looks up are a function from user id to profile;
  \<^item> the socket.io rooms are a function from room name to the sockets that joined it;
  \<^item> every payload handed to \<^verbatim>\<open>emit\<close> is appended, once per receiving socket, to an
    outbox;
  \<^item> \<^verbatim>\<open>console.log\<close> and \<^verbatim>\<open>console.error\<close> append a line to a console.
  A date is a number of milliseconds, the \<^verbatim>\<open>_id\<close> of a document and a socket id are
  numbers. A field that an event or a document may lack is an \<open>option\<close>. The schema
  types \<^verbatim>\<open>userId\<close> as an ObjectId: the store keeps the value that the string of the event
  casts to, and refuses a string that does not cast.
\<close>

type_synonym date = nat
type_synonym object_id = nat
type_synonym socket_id = nat

text \<open>The ObjectId of a user: its 24 hexadecimal digits, letters in lower case.\<close>

datatype oid = ObjectId string

datatype activity_type =
  T_created | T_joined | T_left | T_completed | T_scheduled | T_cancelled | T_missed

datatype activity_status =
  S_completed | S_scheduled | S_missed | S_cancelled | S_in_progress

text \<open>
  A participant as an event carries it, and as the collection stores it, with the fields
  that the schema declares. The ids that the store gives to sub-documents and its version
  key are not part of the model.
\<close>

record participant =
  p_userId :: "string option"
  p_name :: "string option"
  p_joinedAt :: "date option"
  p_leftAt :: "date option"

record stored_participant =
  sp_userId :: "oid option"
  sp_name :: "string option"
  sp_joinedAt :: "date option"
  sp_leftAt :: "date option"

text \<open>
  A stored document. The schema makes \<^verbatim>\<open>participants\<close> an array, which the store
  defaults to the empty array, so every stored document has a list of participants.
\<close>

record activity =
  a_id :: object_id
  userId :: oid
  meetingId :: string
  meetingName :: string
  atype :: activity_type
  status :: activity_status
  duration :: "int option"
  participants :: "stored_participant list"
  startTime :: "date option"
  endTime :: "date option"
  createdAt :: date

text \<open>The \<^verbatim>\<open>data\<close> object of a \<^verbatim>\<open>meeting-started\<close> or \<^verbatim>\<open>meeting-completed\<close> event.\<close>

record event_data =
  e_meetingId :: "string option"
  e_meetingName :: "string option"
  e_userId :: "string option"
  e_duration :: "int option"
  e_participants :: "participant list option"
  e_startTime :: "date option"
  e_endTime :: "date option"

text \<open>The \<^verbatim>\<open>additionalData\<close> object spread into a new document by \<^verbatim>\<open>createActivity\<close>.\<close>

record additional_data =
  ad_status :: "activity_status option"
  ad_duration :: "int option"
  ad_participants :: "participant list option"
  ad_startTime :: "date option"
  ad_endTime :: "date option"

text \<open>
  The \<^verbatim>\<open>updateData\<close> object that the completion handler gives to \<^verbatim>\<open>updateActivity\<close>:
  six keys, of which \<^verbatim>\<open>duration\<close> and \<^verbatim>\<open>participants\<close> are undefined when the event
  lacks them.
\<close>

record update_data =
  u_type :: activity_type
  u_status :: activity_status
  u_duration :: "int option"
  u_participants :: "participant list option"
  u_endTime :: date
  u_meetingName :: string

text \<open>
  What \<^verbatim>\<open>populate('userId', 'firstName lastName profilePicture')\<close> puts in the place
  of the user id: the selected fields of the user, or null when there is no such user.
\<close>

record user_profile =
  up_id :: oid
  firstName :: "string option"
  lastName :: "string option"
  profilePicture :: "string option"

text \<open>
  The object emitted as \<^verbatim>\<open>activity-updated\<close>: its \<^verbatim>\<open>type\<close> string and the fields of
  the activity that the handler copies. The payload of a start has no duration, no
  participants and no endTime.
\<close>

record payload =
  pl_type :: string
  pl_id :: object_id
  pl_meetingId :: string
  pl_meetingName :: string
  pl_atype :: activity_type
  pl_status :: activity_status
  pl_duration :: "int option"
  pl_participants :: "stored_participant list option"
  pl_startTime :: "date option"
  pl_endTime :: "date option"
  pl_createdAt :: date
  pl_userId :: "user_profile option"

datatype log_line = Log string | Err string

datatype error = StorageFailure | ValidationError | CastError

text \<open>
  The state. No handler changes \<open>db_up\<close>, \<open>users\<close> or \<open>pick\<close>: they say whether the
  database answers, which users exist, and which of several matching documents a query
  for one document returns (the module asks for no order, so the store decides).
\<close>

record state =
  docs :: "activity list"
  next_id :: object_id
  db_up :: bool
  users :: "oid \<Rightarrow> user_profile option"
  pick :: "activity list \<Rightarrow> nat"
  rooms :: "string \<Rightarrow> socket_id list"
  outbox :: "(socket_id \<times> string \<times> payload) list"
  console :: "log_line list"

section \<open>The store and the transport\<close>

text \<open>JavaScript truthiness of an optional string: present and not empty.\<close>

fun truthy :: "string option \<Rightarrow> bool" where
  "truthy None = False"
| "truthy (Some s) = (s \<noteq> [])"

text \<open>
  \<^verbatim>\<open>a || b\<close> on an optional string and on an optional date: the second operand is taken
  when the first is absent or falsy, that is the empty string or the number 0. On a
  truthy string, \<open>or_else a []\<close> is the string itself: the handlers use it after their
  guard.
\<close>

definition or_else :: "string option \<Rightarrow> string \<Rightarrow> string" where
  "or_else a b = (case a of None \<Rightarrow> b | Some s \<Rightarrow> if s = [] then b else s)"

definition or_now :: "date option \<Rightarrow> date \<Rightarrow> date" where
  "or_now a now = (case a of None \<Rightarrow> now | Some t \<Rightarrow> if t = 0 then now else t)"

text \<open>
  The cast of a string to an ObjectId: a string of 24 hexadecimal digits casts, to the id
  that ignores the case of its letters; no other string casts.
\<close>

definition hex_digit :: "char \<Rightarrow> bool" where
  "hex_digit c = (c \<in> set ''0123456789abcdefABCDEF'')"

definition lower_hex :: "char \<Rightarrow> char" where
  "lower_hex c =
     (if c = CHR ''A'' then CHR ''a'' else if c = CHR ''B'' then CHR ''b''
      else if c = CHR ''C'' then CHR ''c'' else if c = CHR ''D'' then CHR ''d''
      else if c = CHR ''E'' then CHR ''e'' else if c = CHR ''F'' then CHR ''f'' else c)"

definition castObjectId :: "string \<Rightarrow> oid option" where
  "castObjectId s =
     (if length s = 24 \<and> list_all hex_digit s then Some (ObjectId (map lower_hex s)) else None)"

text \<open>
  The cast of the participants of an event or of an update: a participant without user
  id is kept without one, a user id that does not cast makes the whole cast fail.
\<close>

definition cast_participant :: "participant \<Rightarrow> stored_participant option" where
  "cast_participant p =
     (case p_userId p of
        None \<Rightarrow> Some \<lparr>sp_userId = None, sp_name = p_name p, sp_joinedAt = p_joinedAt p,
                       sp_leftAt = p_leftAt p\<rparr>
      | Some s \<Rightarrow>
          (case castObjectId s of
             None \<Rightarrow> None
           | Some i \<Rightarrow> Some \<lparr>sp_userId = Some i, sp_name = p_name p,
                              sp_joinedAt = p_joinedAt p, sp_leftAt = p_leftAt p\<rparr>))"

definition cast_participants :: "participant list \<Rightarrow> stored_participant list option" where
  "cast_participants ps = those (map cast_participant ps)"

text \<open>
  \<^verbatim>\<open>new MeetingActivity({...})\<close> followed by the validation that \<^verbatim>\<open>save()\<close> runs first:
  the user id and the participants are cast, a required string must not be empty, and
  the defaults of the schema fill \<^verbatim>\<open>status\<close>, \<^verbatim>\<open>participants\<close> and \<^verbatim>\<open>createdAt\<close> (the
  argument \<open>stamp\<close> is the value of \<^verbatim>\<open>Date.now\<close> then).
\<close>

definition new_activity ::
  "object_id \<Rightarrow> date \<Rightarrow> string \<Rightarrow> string \<Rightarrow> string \<Rightarrow> activity_type \<Rightarrow> additional_data
     \<Rightarrow> error + activity" where
  "new_activity i stamp u m n t ad =
     (if u = [] \<or> m = [] \<or> n = [] then Inl ValidationError
      else case castObjectId u of
        None \<Rightarrow> Inl ValidationError
      | Some user \<Rightarrow>
          (case cast_participants (case ad_participants ad of None \<Rightarrow> [] | Some ps \<Rightarrow> ps) of
             None \<Rightarrow> Inl ValidationError
           | Some ps \<Rightarrow>
               Inr \<lparr>a_id = i, userId = user, meetingId = m, meetingName = n, atype = t,
                    status = (case ad_status ad of None \<Rightarrow> S_completed | Some s \<Rightarrow> s),
                    duration = ad_duration ad, participants = ps,
                    startTime = ad_startTime ad, endTime = ad_endTime ad,
                    createdAt = stamp\<rparr>))"

text \<open>\<^verbatim>\<open>activity.save()\<close> of a valid document: it is appended unless the database is down.\<close>

definition save :: "activity \<Rightarrow> state \<Rightarrow> error + state" where
  "save a st =
     (if \<not> db_up st then Inl StorageFailure
      else Inr (st\<lparr>docs := docs st @ [a], next_id := Suc (next_id st)\<rparr>))"

text \<open>
  \<^verbatim>\<open>MeetingActivity.findOne({userId, meetingId, type})\<close>. The user id of the query is
  cast like that of a document, and the query throws when it does not cast. Of the
  matching documents the store returns the one that \<open>pick\<close> selects.
\<close>

definition matches :: "oid \<Rightarrow> string \<Rightarrow> activity_type \<Rightarrow> activity \<Rightarrow> bool" where
  "matches user m t d = (userId d = user \<and> meetingId d = m \<and> atype d = t)"

definition one_of :: "state \<Rightarrow> activity list \<Rightarrow> activity option" where
  "one_of st ms = (case ms of [] \<Rightarrow> None | _ # _ \<Rightarrow> Some (ms ! (pick st ms mod length ms)))"

definition findOne :: "string \<Rightarrow> string \<Rightarrow> activity_type \<Rightarrow> state \<Rightarrow> error + activity option" where
  "findOne u m t st =
     (case castObjectId u of
        None \<Rightarrow> Inl CastError
      | Some user \<Rightarrow>
          if \<not> db_up st then Inl StorageFailure
          else Inr (one_of st (filter (matches user m t) (docs st))))"

text \<open>
  The cast of an update document: its participants are cast when it gives any. Applying
  the update sets the keys that have a value and no other field: the library drops a key
  whose value is undefined, so a document keeps its duration and its participants when
  the update gives none.
\<close>

definition cast_update :: "update_data \<Rightarrow> stored_participant list option option" where
  "cast_update upd =
     (case u_participants upd of
        None \<Rightarrow> Some None
      | Some ps \<Rightarrow> map_option Some (cast_participants ps))"

definition apply_update ::
  "update_data \<Rightarrow> stored_participant list option \<Rightarrow> activity \<Rightarrow> activity" where
  "apply_update upd ps d =
     d\<lparr>atype := u_type upd, status := u_status upd,
       duration := (case u_duration upd of None \<Rightarrow> duration d | Some x \<Rightarrow> Some x),
       participants := (case ps of None \<Rightarrow> participants d | Some l \<Rightarrow> l),
       endTime := Some (u_endTime upd),
       meetingName := u_meetingName upd\<rparr>"

fun update_by_id :: "object_id \<Rightarrow> (activity \<Rightarrow> activity) \<Rightarrow> activity list \<Rightarrow> activity list" where
  "update_by_id i f [] = []"
| "update_by_id i f (d # ds) = (if a_id d = i then f d # ds else d # update_by_id i f ds)"

text \<open>
  \<^verbatim>\<open>MeetingActivity.findByIdAndUpdate(id, updateData, {new: true})\<close>: the update is
  refused when it does not cast; otherwise the result is the document with that id after
  the update, or none when there is no such document.
\<close>

definition findByIdAndUpdate ::
  "object_id \<Rightarrow> update_data \<Rightarrow> state \<Rightarrow> error + (activity option \<times> state)" where
  "findByIdAndUpdate i upd st =
     (case cast_update upd of
        None \<Rightarrow> Inl CastError
      | Some ps \<Rightarrow>
          if \<not> db_up st then Inl StorageFailure
          else case find (\<lambda>d. a_id d = i) (docs st) of
                 None \<Rightarrow> Inr (None, st)
               | Some d \<Rightarrow>
                   Inr (Some (apply_update upd ps d),
                        st\<lparr>docs := update_by_id i (apply_update upd ps) (docs st)\<rparr>))"

text \<open>
  \<^verbatim>\<open>socket.to(room).emit(name, p)\<close>: socket.io delivers to every socket in the room
  except the socket the call is made on.
\<close>

definition socket_to_emit :: "socket_id \<Rightarrow> string \<Rightarrow> string \<Rightarrow> payload \<Rightarrow> state \<Rightarrow> state" where
  "socket_to_emit sock room name p st =
     st\<lparr>outbox := outbox st @ map (\<lambda>c. (c, name, p)) (filter (\<lambda>c. c \<noteq> sock) (rooms st room))\<rparr>"

text \<open>\<^verbatim>\<open>socket.join(room)\<close>: adds the socket to the room; every other room is untouched.\<close>

definition socket_join :: "socket_id \<Rightarrow> string \<Rightarrow> state \<Rightarrow> state" where
  "socket_join sock room st =
     st\<lparr>rooms := (rooms st)(room := (if sock \<in> set (rooms st room) then rooms st room
                                      else rooms st room @ [sock]))\<rparr>"

text \<open>
  What socket.io does when a socket closes, before it runs the listeners of
  \<^verbatim>\<open>disconnect\<close>: the socket leaves every room it is in.
\<close>

definition socket_leave_all :: "socket_id \<Rightarrow> state \<Rightarrow> state" where
  "socket_leave_all sock st = st\<lparr>rooms := (\<lambda>room. removeAll sock (rooms st room))\<rparr>"

definition console_log :: "string \<Rightarrow> state \<Rightarrow> state" where
  "console_log s st = st\<lparr>console := console st @ [Log s]\<rparr>"

definition console_error :: "string \<Rightarrow> state \<Rightarrow> state" where
  "console_error s st = st\<lparr>console := console st @ [Err s]\<rparr>"

section \<open>The module's functions\<close>

text \<open>
  \<^verbatim>\<open>createActivity(userId, meetingId, meetingName, type, additionalData)\<close>. An error of
  the construction or of \<^verbatim>\<open>save()\<close> is logged and thrown on. The call of \<^verbatim>\<open>populate\<close>
  changes what the returned object shows as \<^verbatim>\<open>userId\<close>, not the stored document: the
  payloads below look the profile up.
\<close>

definition createActivity ::
  "date \<Rightarrow> string \<Rightarrow> string \<Rightarrow> string option \<Rightarrow> activity_type \<Rightarrow> additional_data \<Rightarrow> state
     \<Rightarrow> (error + activity) \<times> state" where
  "createActivity stamp u m mn t ad st =
     (case new_activity (next_id st) stamp u m (or_else mn ''Unnamed Meeting'') t ad of
        Inl e \<Rightarrow> (Inl e, console_error ''Error creating activity:'' st)
      | Inr activity \<Rightarrow>
          (case save activity st of
             Inr st' \<Rightarrow> (Inr activity, st')
           | Inl e \<Rightarrow> (Inl e, console_error ''Error creating activity:'' st)))"

text \<open>\<^verbatim>\<open>updateActivity(activityId, updateData)\<close>.\<close>

definition updateActivity ::
  "object_id \<Rightarrow> update_data \<Rightarrow> state \<Rightarrow> (error + activity option) \<times> state" where
  "updateActivity i upd st =
     (case findByIdAndUpdate i upd st of
        Inr (r, st') \<Rightarrow> (Inr r, st')
      | Inl e \<Rightarrow> (Inl e, console_error ''Error updating activity:'' st))"

text \<open>
  The two payloads, built from the activity that \<^verbatim>\<open>createActivity\<close> or
  \<^verbatim>\<open>updateActivity\<close> returned: \<^verbatim>\<open>userId\<close> is what \<^verbatim>\<open>populate\<close> left there.
\<close>

definition started_payload :: "(oid \<Rightarrow> user_profile option) \<Rightarrow> activity \<Rightarrow> payload" where
  "started_payload profiles a =
     \<lparr>pl_type = ''meeting-started'', pl_id = a_id a, pl_meetingId = meetingId a,
      pl_meetingName = meetingName a, pl_atype = atype a, pl_status = status a,
      pl_duration = None, pl_participants = None, pl_startTime = startTime a,
      pl_endTime = None, pl_createdAt = createdAt a, pl_userId = profiles (userId a)\<rparr>"

definition completed_payload :: "(oid \<Rightarrow> user_profile option) \<Rightarrow> activity \<Rightarrow> payload" where
  "completed_payload profiles a =
     \<lparr>pl_type = ''meeting-completed'', pl_id = a_id a, pl_meetingId = meetingId a,
      pl_meetingName = meetingName a, pl_atype = atype a, pl_status = status a,
      pl_duration = duration a, pl_participants = Some (participants a),
      pl_startTime = startTime a, pl_endTime = endTime a, pl_createdAt = createdAt a,
      pl_userId = profiles (userId a)\<rparr>"

text \<open>
  The handler of \<^verbatim>\<open>meeting-started\<close> on socket \<open>sock\<close>. \<open>now\<close> is the value of
  \<^verbatim>\<open>new Date()\<close> in the handler. The room is named after the user id as the event
  spells it.
\<close>

definition meeting_started :: "socket_id \<Rightarrow> date \<Rightarrow> date \<Rightarrow> event_data \<Rightarrow> state \<Rightarrow> state" where
  "meeting_started sock now stamp data st =
     (if \<not> truthy (e_meetingId data) \<or> \<not> truthy (e_userId data)
      then console_error ''Missing required data for meeting-started event'' st
      else
        let m = or_else (e_meetingId data) []; u = or_else (e_userId data) [] in
        case createActivity stamp u m (e_meetingName data) T_created
               \<lparr>ad_status = Some S_in_progress, ad_duration = None, ad_participants = None,
                ad_startTime = Some (or_now (e_startTime data) now), ad_endTime = None\<rparr> st of
          (Inr activity, st') \<Rightarrow>
            socket_to_emit sock (''user-'' @ u) ''activity-updated''
              (started_payload (users st') activity) st'
        | (Inl e, st') \<Rightarrow> console_error ''Error handling meeting-started:'' st')"

text \<open>The handler of \<^verbatim>\<open>meeting-completed\<close> on socket \<open>sock\<close>.\<close>

definition completed_update :: "date \<Rightarrow> event_data \<Rightarrow> activity \<Rightarrow> update_data" where
  "completed_update now data activity =
     \<lparr>u_type = T_completed, u_status = S_completed, u_duration = e_duration data,
      u_participants = e_participants data,
      u_endTime = or_now (e_endTime data) now,
      u_meetingName =
        (if truthy (e_meetingName data) \<and> e_meetingName data \<noteq> Some ''Meeting Room''
         then or_else (e_meetingName data) [] else meetingName activity)\<rparr>"

definition publish_completed :: "socket_id \<Rightarrow> string \<Rightarrow> activity option \<Rightarrow> state \<Rightarrow> state" where
  "publish_completed sock u r st =
     (let st1 = console_log ''Activity saved:'' st in
      case r of
        None \<Rightarrow> console_error ''Error handling meeting-completed:'' st1
      | Some activity \<Rightarrow>
          socket_to_emit sock (''user-'' @ u) ''activity-updated''
            (completed_payload (users st1) activity) st1)"

definition meeting_completed :: "socket_id \<Rightarrow> date \<Rightarrow> date \<Rightarrow> event_data \<Rightarrow> state \<Rightarrow> state" where
  "meeting_completed sock now stamp data st =
     (if \<not> truthy (e_meetingId data) \<or> \<not> truthy (e_userId data)
      then console_error ''Missing required data for meeting-completed event'' st
      else
        let m = or_else (e_meetingId data) []; u = or_else (e_userId data) [];
            st1 = console_log ''Processing meeting completion:'' st in
        case findOne u m T_created st1 of
          Inl e \<Rightarrow> console_error ''Error handling meeting-completed:'' st1
        | Inr (Some activity) \<Rightarrow>
            (case updateActivity (a_id activity) (completed_update now data activity) st1 of
               (Inr r, st2) \<Rightarrow> publish_completed sock u r st2
             | (Inl e, st2) \<Rightarrow> console_error ''Error handling meeting-completed:'' st2)
        | Inr None \<Rightarrow>
            (case createActivity stamp u m (e_meetingName data) T_completed
                    \<lparr>ad_status = Some S_completed, ad_duration = e_duration data,
                     ad_participants = e_participants data, ad_startTime = e_startTime data,
                     ad_endTime = Some (or_now (e_endTime data) now)\<rparr> st1 of
               (Inr activity, st2) \<Rightarrow> publish_completed sock u (Some activity) st2
             | (Inl e, st2) \<Rightarrow> console_error ''Error handling meeting-completed:'' st2))"

text \<open>The handler of \<^verbatim>\<open>join-user-room\<close> on socket \<open>sock\<close>.\<close>

definition join_user_room :: "socket_id \<Rightarrow> string \<Rightarrow> state \<Rightarrow> state" where
  "join_user_room sock u st =
     console_log (''User '' @ u @ '' joined their activity room'')
       (socket_join sock (''user-'' @ u) st)"

text \<open>\<^verbatim>\<open>handleDisconnect\<close> of the socket \<open>sock\<close>: one line on the console.\<close>

definition handleDisconnect :: "socket_id \<Rightarrow> state \<Rightarrow> state" where
  "handleDisconnect sock st = console_log ''Activity socket disconnected:'' st"

text \<open>
  The disconnect of a socket as the module sees it: socket.io has taken the socket out
  of its rooms when the callback of the module runs.
\<close>

definition socket_disconnect :: "socket_id \<Rightarrow> state \<Rightarrow> state" where
  "socket_disconnect sock st = handleDisconnect sock (socket_leave_all sock st)"

section \<open>Reading the state\<close>

text \<open>The channels subscribed to a user: the sockets in the room \<^verbatim>\<open>user-<userId>\<close>.\<close>

definition channelsFor :: "state \<Rightarrow> string \<Rightarrow> socket_id set" where
  "channelsFor st u = set (rooms st (''user-'' @ u))"

text \<open>
  An open session of a user and a meeting: a document whose type is created, whose
  meeting is that meeting and whose user is the one that the user id casts to.
\<close>

definition open_session :: "string \<Rightarrow> string \<Rightarrow> activity \<Rightarrow> bool" where
  "open_session u m d = (castObjectId u = Some (userId d) \<and> meetingId d = m \<and> atype d = T_created)"




text \<open>The invariant of the collection: ids are unique and below the counter.\<close>

definition store_ok :: "state \<Rightarrow> bool" where
  "store_ok st = (distinct (map a_id (docs st)) \<and> list_all (\<lambda>d. a_id d < next_id st) (docs st))"

section \<open>Sequences of events\<close>

text \<open>
  The part of a document that the schema and the handlers treat as fixed once the
  document exists: its id, its user, its meeting, its start time and \<^verbatim>\<open>createdAt\<close>.
\<close>

definition fixed_part :: "activity \<Rightarrow> object_id \<times> oid \<times> string \<times> date option \<times> date" where
  "fixed_part d = (a_id d, userId d, meetingId d, startTime d, createdAt d)"

text \<open>
  What can reach a socket: the three events that \<^verbatim>\<open>setupSocketHandlers\<close> registers, and
  the disconnect, for which it returns \<^verbatim>\<open>handleDisconnect\<close>. An arrival is such a message
  with the socket it comes on and the two clock readings its handler may take.
\<close>

datatype incoming =
  MeetingStarted event_data | MeetingCompleted event_data | JoinUserRoom string | Disconnect

record arrival =
  on_socket :: socket_id
  at_time :: date
  at_stamp :: date
  message :: incoming

definition handle :: "arrival \<Rightarrow> state \<Rightarrow> state" where
  "handle x st =
     (case message x of
        MeetingStarted data \<Rightarrow> meeting_started (on_socket x) (at_time x) (at_stamp x) data st
      | MeetingCompleted data \<Rightarrow> meeting_completed (on_socket x) (at_time x) (at_stamp x) data st
      | JoinUserRoom u \<Rightarrow> join_user_room (on_socket x) u st
      | Disconnect \<Rightarrow> socket_disconnect (on_socket x) st)"

fun run :: "arrival list \<Rightarrow> state \<Rightarrow> state" where
  "run [] st = st"
| "run (x # xs) st = run xs (handle x st)"

text \<open>
  A later state keeps the fixed part of an earlier one when every document of the earlier
  collection is still at its position with the same fixed part.
\<close>

definition keeps_fixed_part :: "state \<Rightarrow> state \<Rightarrow> bool" where
  "keeps_fixed_part st st' =
     (length (docs st) \<le> length (docs st') \<and>
      map fixed_part (take (length (docs st)) (docs st')) = map fixed_part (docs st))"

section \<open>Example states and events\<close>

text \<open>
  Concrete inputs on which the theorems below are instantiated: two user ids that are
  ObjectIds and three that are not, a collection that is empty with the database up and
  one known user, the events of some short scenarios, and the states they lead to.
\<close>

definition alice :: string where
  "alice = ''65a1b2c3d4e5f60718293a4b''"

definition bob :: string where
  "bob = ''65a1b2c3d4e5f60718293a4c''"

definition alice_profile :: user_profile where
  "alice_profile = \<lparr>up_id = ObjectId alice, firstName = Some ''Alice'', lastName = Some ''Archer'',
                     profilePicture = None\<rparr>"

definition empty_state :: state where
  "empty_state = \<lparr>docs = [], next_id = 0, db_up = True,
                   users = (\<lambda>i. if i = ObjectId alice then Some alice_profile else None),
                   pick = (\<lambda>ms. 0), rooms = (\<lambda>room. []), outbox = [], console = []\<rparr>"

definition sprint_started :: event_data where
  "sprint_started = \<lparr>e_meetingId = Some ''m1'', e_meetingName = Some ''Sprint Planning'',
                      e_userId = Some alice, e_duration = None, e_participants = None,
                      e_startTime = None, e_endTime = None\<rparr>"

definition sprint_completed :: event_data where
  "sprint_completed = \<lparr>e_meetingId = Some ''m1'', e_meetingName = None,
                        e_userId = Some alice, e_duration = Some 30, e_participants = None,
                        e_startTime = None, e_endTime = None\<rparr>"

definition sprint_open :: state where
  "sprint_open = meeting_started 1 100 101 sprint_started empty_state"





definition nameless_user :: event_data where
  "nameless_user = \<lparr>e_meetingId = Some ''m1'', e_meetingName = Some ''Sprint Planning'',
                     e_userId = Some [], e_duration = None, e_participants = None,
                     e_startTime = None, e_endTime = None\<rparr>"






section \<open>Auxiliary facts\<close>

lemma cast_alice: "castObjectId alice = Some (ObjectId alice)"
  by (simp add: castObjectId_def alice_def hex_digit_def lower_hex_def)


lemma cast_ignores_case: "castObjectId ''65A1B2C3D4E5F60718293A4B'' = Some (ObjectId alice)"
  by (simp add: castObjectId_def alice_def hex_digit_def lower_hex_def)

lemma alice_nonempty: "alice \<noteq> []" "bob \<noteq> []"
  by (simp_all add: alice_def bob_def)


lemma or_else_Some: "s \<noteq> [] \<Longrightarrow> or_else (Some s) b = s"
  by (simp add: or_else_def)

lemma or_else_nonempty: "b \<noteq> [] \<Longrightarrow> or_else a b \<noteq> []"
  by (simp add: or_else_def split: option.splits)

lemma docs_socket_to_emit [simp]: "docs (socket_to_emit sock room name p st) = docs st"
  by (simp add: socket_to_emit_def)

lemma docs_console_log [simp]: "docs (console_log s st) = docs st"
  by (simp add: console_log_def)

lemma docs_console_error [simp]: "docs (console_error s st) = docs st"
  by (simp add: console_error_def)

lemma cast_participants_Nil [simp]: "cast_participants [] = Some []"
  by (simp add: cast_participants_def)

text \<open>After the handlers' guard, \<^verbatim>\<open>createActivity\<close> succeeds when the store accepts.\<close>

lemma createActivity_ok:
  assumes "db_up st" "u \<noteq> []" "m \<noteq> []" "castObjectId u = Some user"
    and "cast_participants (case ad_participants ad of None \<Rightarrow> [] | Some ps \<Rightarrow> ps) = Some l"
  shows "createActivity stamp u m mn t ad st =
           (let r = \<lparr>a_id = next_id st, userId = user, meetingId = m,
                     meetingName = or_else mn ''Unnamed Meeting'', atype = t,
                     status = (case ad_status ad of None \<Rightarrow> S_completed | Some s \<Rightarrow> s),
                     duration = ad_duration ad, participants = l,
                     startTime = ad_startTime ad, endTime = ad_endTime ad, createdAt = stamp\<rparr>
            in (Inr r, st\<lparr>docs := docs st @ [r], next_id := Suc (next_id st)\<rparr>))"
  using assms
  by (simp add: createActivity_def new_activity_def save_def Let_def or_else_nonempty)

lemma new_activity_id: "new_activity i stamp u m n t ad = Inr r \<Longrightarrow> a_id r = i"
  by (auto simp: new_activity_def split: if_splits option.splits)

lemma createActivity_state:
  "snd (createActivity stamp u m mn t ad st) = console_error ''Error creating activity:'' st \<or>
   (\<exists>r. a_id r = next_id st \<and>
        snd (createActivity stamp u m mn t ad st) =
          st\<lparr>docs := docs st @ [r], next_id := Suc (next_id st)\<rparr>)"
proof (cases "new_activity (next_id st) stamp u m (or_else mn ''Unnamed Meeting'') t ad")
  case (Inl e)
  then show ?thesis by (simp add: createActivity_def)
next
  case (Inr r)
  show ?thesis
  proof (cases "db_up st")
    case True
    with Inr new_activity_id[OF Inr] show ?thesis
      by (auto simp: createActivity_def save_def)
  next
    case False
    with Inr show ?thesis by (simp add: createActivity_def save_def)
  qed
qed

lemma updateActivity_state:
  "snd (updateActivity i upd st) = st \<or>
   snd (updateActivity i upd st) = console_error ''Error updating activity:'' st \<or>
   (\<exists>ps. snd (updateActivity i upd st) =
            st\<lparr>docs := update_by_id i (apply_update upd ps) (docs st)\<rparr>)"
proof (cases "findByIdAndUpdate i upd st")
  case (Inl e)
  then show ?thesis by (simp add: updateActivity_def)
next
  case (Inr x)
  then show ?thesis
    by (cases x)
       (auto simp: updateActivity_def findByIdAndUpdate_def split: option.splits if_splits)
qed

subsection \<open>Updating by id in a collection with unique ids\<close>

lemma update_by_id_nth:
  "distinct (map a_id ds) \<Longrightarrow> k < length ds \<Longrightarrow>
     update_by_id (a_id (ds ! k)) f ds = ds[k := f (ds ! k)]"
proof (induction ds arbitrary: k)
  case Nil
  then show ?case by simp
next
  case (Cons d ds)
  show ?case
  proof (cases k)
    case 0
    then show ?thesis by simp
  next
    case (Suc j)
    with Cons.prems have j: "j < length ds" and dd: "distinct (map a_id ds)"
      and nin: "a_id d \<notin> a_id ` set ds" by auto
    from j have "ds ! j \<in> set ds" by simp
    with nin have "a_id d \<noteq> a_id (ds ! j)" by auto
    with Suc Cons.IH[OF dd j] show ?thesis by simp
  qed
qed

lemma find_by_id:
  "distinct (map a_id ds) \<Longrightarrow> k < length ds \<Longrightarrow>
     find (\<lambda>d. a_id d = a_id (ds ! k)) ds = Some (ds ! k)"
proof (induction ds arbitrary: k)
  case Nil
  then show ?case by simp
next
  case (Cons d ds)
  show ?case
  proof (cases k)
    case 0
    then show ?thesis by simp
  next
    case (Suc j)
    with Cons.prems have j: "j < length ds" and dd: "distinct (map a_id ds)"
      and nin: "a_id d \<notin> a_id ` set ds" by auto
    from j have "ds ! j \<in> set ds" by simp
    with nin have "a_id d \<noteq> a_id (ds ! j)" by auto
    with Suc Cons.IH[OF dd j] show ?thesis by simp
  qed
qed

subsection \<open>The open session that \<^verbatim>\<open>findOne\<close> returns\<close>

lemma open_session_matches:
  "castObjectId u = Some user \<Longrightarrow> open_session u m = matches user m T_created"
  by (rule ext) (auto simp: open_session_def matches_def)

lemma one_of_filter:
  assumes "\<exists>d \<in> set ds. P d"
  shows "\<exists>k < length ds. one_of st (filter P ds) = Some (ds ! k) \<and> P (ds ! k)"
proof -
  let ?ms = "filter P ds"
  from assms have ne: "?ms \<noteq> []" by (simp add: filter_empty_conv)
  then have "pick st ?ms mod length ?ms < length ?ms" by simp
  then have "?ms ! (pick st ?ms mod length ?ms) \<in> set ?ms" by (rule nth_mem)
  then have "?ms ! (pick st ?ms mod length ?ms) \<in> set ds" and p: "P (?ms ! (pick st ?ms mod length ?ms))"
    by simp_all
  then obtain k where "k < length ds" "ds ! k = ?ms ! (pick st ?ms mod length ?ms)"
    by (auto simp: in_set_conv_nth)
  moreover from ne have "one_of st ?ms = Some (?ms ! (pick st ?ms mod length ?ms))"
    by (cases ?ms) (simp_all add: one_of_def)
  ultimately show ?thesis using p by auto
qed


lemma one_of_console_log [simp]: "one_of (console_log s st) = one_of st"
  by (rule ext) (simp add: one_of_def console_log_def split: list.splits)

lemma picked_open_session:
  assumes "castObjectId u = Some user" "\<exists>d \<in> set (docs st). open_session u m d"
  shows "\<exists>k < length (docs st).
           one_of st (filter (matches user m T_created) (docs st)) = Some (docs st ! k) \<and>
           open_session u m (docs st ! k)"
  using one_of_filter[of "docs st" "matches user m T_created" st] assms
  by (simp add: open_session_matches)


subsection \<open>The cast of the participants of an event\<close>




subsection \<open>The handlers on a valid event, path by path\<close>

lemma meeting_started_ok:
  assumes "db_up st" "e_userId data = Some u" "u \<noteq> []" "e_meetingId data = Some m" "m \<noteq> []"
    and "castObjectId u = Some user"
  shows "meeting_started sock now stamp data st =
           (let r = \<lparr>a_id = next_id st, userId = user, meetingId = m,
                     meetingName = or_else (e_meetingName data) ''Unnamed Meeting'',
                     atype = T_created, status = S_in_progress, duration = None,
                     participants = [], startTime = Some (or_now (e_startTime data) now),
                     endTime = None, createdAt = stamp\<rparr>
            in socket_to_emit sock (''user-'' @ u) ''activity-updated''
                 (started_payload (users st) r)
                 (st\<lparr>docs := docs st @ [r], next_id := Suc (next_id st)\<rparr>))"
  using assms
  by (simp add: meeting_started_def createActivity_ok[where l = "[]"] or_else_Some Let_def)



lemma meeting_completed_merge:
  assumes "db_up st" "store_ok st" "e_userId data = Some u" "u \<noteq> []"
    and "e_meetingId data = Some m" "m \<noteq> []" "castObjectId u = Some user"
    and "k < length (docs st)"
    and "one_of st (filter (matches user m T_created) (docs st)) = Some (docs st ! k)"
    and "cast_update (completed_update now data (docs st ! k)) = Some ps"
  shows "meeting_completed sock now stamp data st =
           (let a = docs st ! k; r = apply_update (completed_update now data a) ps a
            in socket_to_emit sock (''user-'' @ u) ''activity-updated''
                 (completed_payload (users st) r)
                 (console_log ''Activity saved:''
                   ((console_log ''Processing meeting completion:'' st)
                      \<lparr>docs := (docs st)[k := r]\<rparr>)))"
proof -
  from assms(2) have dd: "distinct (map a_id (docs st))" by (simp add: store_ok_def)
  note fb = find_by_id[OF dd assms(8)] and ub = update_by_id_nth[OF dd assms(8)]
  show ?thesis
    using assms(1,3-7,9,10) fb ub
    by (simp add: meeting_completed_def findOne_def updateActivity_def
          findByIdAndUpdate_def or_else_Some Let_def publish_completed_def)
       (simp add: console_log_def)
qed

lemma meeting_completed_refused:
  assumes "db_up st" "e_userId data = Some u" "u \<noteq> []"
    and "e_meetingId data = Some m" "m \<noteq> []" "castObjectId u = Some user"
    and "one_of st (filter (matches user m T_created) (docs st)) = Some a"
    and "cast_update (completed_update now data a) = None"
  shows "docs (meeting_completed sock now stamp data st) = docs st"
    and "outbox (meeting_completed sock now stamp data st) = outbox st"
  using assms
  by (simp_all add: meeting_completed_def findOne_def updateActivity_def
          findByIdAndUpdate_def or_else_Some Let_def)
     (simp_all add: console_log_def console_error_def)

lemma docs_merge:
  assumes "db_up st" "store_ok st" "e_userId data = Some u" "u \<noteq> []"
    and "e_meetingId data = Some m" "m \<noteq> []" "castObjectId u = Some user"
    and "k < length (docs st)"
    and "one_of st (filter (matches user m T_created) (docs st)) = Some (docs st ! k)"
    and "cast_update (completed_update now data (docs st ! k)) = Some ps"
  shows "docs (meeting_completed sock now stamp data st) =
           (docs st)[k := apply_update (completed_update now data (docs st ! k)) ps (docs st ! k)]"
  by (simp add: meeting_completed_merge[OF assms] Let_def)


subsection \<open>The fixed part of every document\<close>

lemma keeps_fixed_part_refl: "keeps_fixed_part st st"
  by (simp add: keeps_fixed_part_def)

lemma keeps_fixed_part_trans:
  assumes "keeps_fixed_part a b" "keeps_fixed_part b c"
  shows "keeps_fixed_part a c"
proof -
  from assms have l: "length (docs a) \<le> length (docs b)" "length (docs b) \<le> length (docs c)"
    and ab: "map fixed_part (take (length (docs a)) (docs b)) = map fixed_part (docs a)"
    and bc: "map fixed_part (take (length (docs b)) (docs c)) = map fixed_part (docs b)"
    by (simp_all add: keeps_fixed_part_def)
  have "take (length (docs a)) (docs c) = take (length (docs a)) (take (length (docs b)) (docs c))"
    using l by (simp add: min_def)
  then have "map fixed_part (take (length (docs a)) (docs c)) =
               take (length (docs a)) (map fixed_part (take (length (docs b)) (docs c)))"
    by (simp only: take_map)
  also have "\<dots> = map fixed_part (take (length (docs a)) (docs b))"
    by (simp only: bc take_map)
  finally show ?thesis using l ab by (simp add: keeps_fixed_part_def)
qed

lemma keeps_fixed_part_nth:
  assumes "keeps_fixed_part a b" "k < length (docs a)"
  shows "fixed_part (docs b ! k) = fixed_part (docs a ! k)"
proof -
  from assms have l: "k < length (take (length (docs a)) (docs b))"
    by (simp add: keeps_fixed_part_def)
  from assms(1) have "map fixed_part (take (length (docs a)) (docs b)) ! k = map fixed_part (docs a) ! k"
    by (simp add: keeps_fixed_part_def)
  with l assms(2) show ?thesis by (simp del: length_take)
qed

lemma length_update_by_id [simp]: "length (update_by_id i f ds) = length ds"
  by (induction ds) auto

lemma fixed_update_by_id:
  "(\<And>d. fixed_part (f d) = fixed_part d) \<Longrightarrow>
     map fixed_part (update_by_id i f ds) = map fixed_part ds"
  by (induction ds) auto

lemma fixed_apply_update [simp]: "fixed_part (apply_update upd ps d) = fixed_part d"
  by (simp add: fixed_part_def apply_update_def)

lemma keeps_console_log [simp]: "keeps_fixed_part st (console_log s st') = keeps_fixed_part st st'"
  by (simp add: keeps_fixed_part_def)

lemma keeps_console_error [simp]:
  "keeps_fixed_part st (console_error s st') = keeps_fixed_part st st'"
  by (simp add: keeps_fixed_part_def)

lemma keeps_socket_to_emit [simp]:
  "keeps_fixed_part st (socket_to_emit sock room name p st') = keeps_fixed_part st st'"
  by (simp add: keeps_fixed_part_def)

lemma keeps_console_log_left [simp]:
  "keeps_fixed_part (console_log s st) st' = keeps_fixed_part st st'"
  by (simp add: keeps_fixed_part_def)

lemma createActivity_keeps:
  assumes "createActivity stamp u m mn t ad st = (r, st')"
  shows "keeps_fixed_part st st'"
proof -
  from assms have "st' = snd (createActivity stamp u m mn t ad st)" by simp
  with createActivity_state[of stamp u m mn t ad st]
  have "st' = console_error ''Error creating activity:'' st \<or>
        (\<exists>r. st' = st\<lparr>docs := docs st @ [r], next_id := Suc (next_id st)\<rparr>)" by auto
  then show ?thesis
  proof
    assume "st' = console_error ''Error creating activity:'' st"
    then show ?thesis by (simp add: keeps_fixed_part_refl)
  next
    assume "\<exists>r. st' = st\<lparr>docs := docs st @ [r], next_id := Suc (next_id st)\<rparr>"
    then show ?thesis by (auto simp: keeps_fixed_part_def)
  qed
qed

lemma updateActivity_keeps:
  assumes "updateActivity i upd st = (r, st')"
  shows "keeps_fixed_part st st'"
proof -
  from assms have "st' = snd (updateActivity i upd st)" by simp
  with updateActivity_state[of i upd st]
  have "st' = st \<or> st' = console_error ''Error updating activity:'' st \<or>
        (\<exists>ps. st' = st\<lparr>docs := update_by_id i (apply_update upd ps) (docs st)\<rparr>)" by simp
  then show ?thesis
  proof (elim disjE exE)
    assume "st' = st"
    then show ?thesis by (simp add: keeps_fixed_part_refl)
  next
    assume "st' = console_error ''Error updating activity:'' st"
    then show ?thesis by (simp add: keeps_fixed_part_refl)
  next
    fix ps assume "st' = st\<lparr>docs := update_by_id i (apply_update upd ps) (docs st)\<rparr>"
    then show ?thesis by (simp add: keeps_fixed_part_def fixed_update_by_id)
  qed
qed

lemma meeting_started_keeps: "keeps_fixed_part st (meeting_started sock now stamp data st)"
proof (cases "\<not> truthy (e_meetingId data) \<or> \<not> truthy (e_userId data)")
  case True
  then show ?thesis by (simp add: meeting_started_def keeps_fixed_part_refl)
next
  case False
  obtain r st' where c: "createActivity stamp (or_else (e_userId data) [])
       (or_else (e_meetingId data) []) (e_meetingName data) T_created
       \<lparr>ad_status = Some S_in_progress, ad_duration = None, ad_participants = None,
        ad_startTime = Some (or_now (e_startTime data) now), ad_endTime = None\<rparr> st = (r, st')"
    by (cases "createActivity stamp (or_else (e_userId data) [])
       (or_else (e_meetingId data) []) (e_meetingName data) T_created
       \<lparr>ad_status = Some S_in_progress, ad_duration = None, ad_participants = None,
        ad_startTime = Some (or_now (e_startTime data) now), ad_endTime = None\<rparr> st")
  from createActivity_keeps[OF c] False c show ?thesis
    by (cases r) (simp_all add: meeting_started_def Let_def)
qed

lemma publish_completed_keeps [simp]:
  "keeps_fixed_part st (publish_completed sock u r st') = keeps_fixed_part st st'"
  by (cases r) (simp_all add: publish_completed_def Let_def)

lemma meeting_completed_keeps: "keeps_fixed_part st (meeting_completed sock now stamp data st)"
proof (cases "\<not> truthy (e_meetingId data) \<or> \<not> truthy (e_userId data)")
  case True
  then show ?thesis by (simp add: meeting_completed_def keeps_fixed_part_refl)
next
  case False
  let ?st1 = "console_log ''Processing meeting completion:'' st"
  let ?u = "or_else (e_userId data) []" and ?m = "or_else (e_meetingId data) []"
  show ?thesis
  proof (cases "findOne ?u ?m T_created ?st1")
    case (Inl e)
    with False show ?thesis by (simp add: meeting_completed_def Let_def keeps_fixed_part_refl)
  next
    case (Inr found)
    show ?thesis
    proof (cases found)
      case None
      obtain r st2 where c: "createActivity stamp ?u ?m (e_meetingName data) T_completed
                    \<lparr>ad_status = Some S_completed, ad_duration = e_duration data,
                     ad_participants = e_participants data, ad_startTime = e_startTime data,
                     ad_endTime = Some (or_now (e_endTime data) now)\<rparr> ?st1 = (r, st2)"
        by (cases "createActivity stamp ?u ?m (e_meetingName data) T_completed
                    \<lparr>ad_status = Some S_completed, ad_duration = e_duration data,
                     ad_participants = e_participants data, ad_startTime = e_startTime data,
                     ad_endTime = Some (or_now (e_endTime data) now)\<rparr> ?st1")
      from createActivity_keeps[OF c] False Inr None c show ?thesis
        by (cases r) (simp_all add: meeting_completed_def Let_def)
    next
      case (Some a)
      obtain r st2 where c: "updateActivity (a_id a) (completed_update now data a) ?st1 = (r, st2)"
        by (cases "updateActivity (a_id a) (completed_update now data a) ?st1")
      from updateActivity_keeps[OF c] False Inr Some c show ?thesis
        by (cases r) (simp_all add: meeting_completed_def Let_def)
    qed
  qed
qed

lemma join_user_room_keeps: "keeps_fixed_part st (join_user_room sock u st)"
  by (simp add: join_user_room_def socket_join_def keeps_fixed_part_def)

lemma socket_disconnect_keeps: "keeps_fixed_part st (socket_disconnect sock st)"
  by (simp add: socket_disconnect_def handleDisconnect_def socket_leave_all_def
        keeps_fixed_part_def)

lemma handle_keeps: "keeps_fixed_part st (handle x st)"
  by (cases "message x")
     (simp_all add: handle_def meeting_started_keeps meeting_completed_keeps
        join_user_room_keeps socket_disconnect_keeps)

lemma run_keeps: "keeps_fixed_part st (run xs st)"
proof (induction xs arbitrary: st)
  case Nil
  show ?case by (simp add: keeps_fixed_part_refl)
next
  case (Cons x xs)
  from keeps_fixed_part_trans[OF handle_keeps Cons.IH] show ?case by simp
qed

subsection \<open>The invariant of the collection\<close>

lemma ids_update_by_id:
  "(\<And>d. a_id (f d) = a_id d) \<Longrightarrow> map a_id (update_by_id i f ds) = map a_id ds"
  by (induction ds) auto

lemma store_ok_ids:
  "store_ok st \<longleftrightarrow>
     distinct (map a_id (docs st)) \<and> (\<forall>i \<in> set (map a_id (docs st)). i < next_id st)"
  by (auto simp: store_ok_def list_all_iff)

lemma store_ok_cong:
  "map a_id (docs st') = map a_id (docs st) \<Longrightarrow> next_id st' = next_id st \<Longrightarrow>
     store_ok st' = store_ok st"
  by (simp add: store_ok_ids)

lemma store_ok_empty: "store_ok empty_state"
  by (simp add: store_ok_def empty_state_def)

lemma store_ok_append:
  assumes "store_ok st" "a_id a = next_id st"
  shows "store_ok (st\<lparr>docs := docs st @ [a], next_id := Suc (next_id st)\<rparr>)"
proof -
  from assms(1) have d: "distinct (map a_id (docs st))"
    and b: "\<forall>i \<in> set (map a_id (docs st)). i < next_id st"
    by (simp_all add: store_ok_ids)
  from b have "next_id st \<notin> set (map a_id (docs st))" by blast
  with d b assms(2) show ?thesis
    by (auto simp: store_ok_ids less_Suc_eq)
qed

lemma store_ok_update:
  "store_ok (st\<lparr>docs := update_by_id i (apply_update upd ps) (docs st)\<rparr>) = store_ok st"
  by (rule store_ok_cong) (simp_all add: ids_update_by_id apply_update_def)

lemma store_ok_console_log [simp]: "store_ok (console_log s st) = store_ok st"
  by (simp add: store_ok_def console_log_def)

lemma store_ok_console_error [simp]: "store_ok (console_error s st) = store_ok st"
  by (simp add: store_ok_def console_error_def)

lemma store_ok_socket_to_emit [simp]:
  "store_ok (socket_to_emit sock room name p st) = store_ok st"
  by (simp add: store_ok_def socket_to_emit_def)

lemma store_ok_publish_completed [simp]:
  "store_ok (publish_completed sock u r st) = store_ok st"
  by (cases r) (simp_all add: publish_completed_def Let_def)

lemma createActivity_store_ok:
  assumes "store_ok st" "createActivity stamp u m mn t ad st = (r, st')"
  shows "store_ok st'"
proof -
  from assms(2) have "st' = snd (createActivity stamp u m mn t ad st)" by simp
  with createActivity_state[of stamp u m mn t ad st]
  have "st' = console_error ''Error creating activity:'' st \<or>
        (\<exists>r. a_id r = next_id st \<and>
             st' = st\<lparr>docs := docs st @ [r], next_id := Suc (next_id st)\<rparr>)" by auto
  with assms(1) show ?thesis by (auto simp: store_ok_append)
qed

lemma updateActivity_store_ok:
  assumes "store_ok st" "updateActivity i upd st = (r, st')"
  shows "store_ok st'"
proof -
  from assms(2) have "st' = snd (updateActivity i upd st)" by simp
  with updateActivity_state[of i upd st]
  have "st' = st \<or> st' = console_error ''Error updating activity:'' st \<or>
        (\<exists>ps. st' = st\<lparr>docs := update_by_id i (apply_update upd ps) (docs st)\<rparr>)" by simp
  with assms(1) show ?thesis by (auto simp: store_ok_update)
qed

lemma meeting_started_store_ok:
  assumes "store_ok st" shows "store_ok (meeting_started sock now stamp data st)"
proof (cases "\<not> truthy (e_meetingId data) \<or> \<not> truthy (e_userId data)")
  case True
  with assms show ?thesis by (simp add: meeting_started_def)
next
  case False
  obtain r st' where c: "createActivity stamp (or_else (e_userId data) [])
       (or_else (e_meetingId data) []) (e_meetingName data) T_created
       \<lparr>ad_status = Some S_in_progress, ad_duration = None, ad_participants = None,
        ad_startTime = Some (or_now (e_startTime data) now), ad_endTime = None\<rparr> st = (r, st')"
    by (cases "createActivity stamp (or_else (e_userId data) [])
       (or_else (e_meetingId data) []) (e_meetingName data) T_created
       \<lparr>ad_status = Some S_in_progress, ad_duration = None, ad_participants = None,
        ad_startTime = Some (or_now (e_startTime data) now), ad_endTime = None\<rparr> st")
  from createActivity_store_ok[OF assms c] False c show ?thesis
    by (cases r) (simp_all add: meeting_started_def Let_def)
qed

lemma meeting_completed_store_ok:
  assumes "store_ok st" shows "store_ok (meeting_completed sock now stamp data st)"
proof (cases "\<not> truthy (e_meetingId data) \<or> \<not> truthy (e_userId data)")
  case True
  with assms show ?thesis by (simp add: meeting_completed_def)
next
  case False
  let ?st1 = "console_log ''Processing meeting completion:'' st"
  let ?u = "or_else (e_userId data) []" and ?m = "or_else (e_meetingId data) []"
  from assms have ok1: "store_ok ?st1" by simp
  show ?thesis
  proof (cases "findOne ?u ?m T_created ?st1")
    case (Inl e)
    with False assms show ?thesis by (simp add: meeting_completed_def Let_def)
  next
    case (Inr found)
    show ?thesis
    proof (cases found)
      case None
      obtain r st2 where c: "createActivity stamp ?u ?m (e_meetingName data) T_completed
                    \<lparr>ad_status = Some S_completed, ad_duration = e_duration data,
                     ad_participants = e_participants data, ad_startTime = e_startTime data,
                     ad_endTime = Some (or_now (e_endTime data) now)\<rparr> ?st1 = (r, st2)"
        by (cases "createActivity stamp ?u ?m (e_meetingName data) T_completed
                    \<lparr>ad_status = Some S_completed, ad_duration = e_duration data,
                     ad_participants = e_participants data, ad_startTime = e_startTime data,
                     ad_endTime = Some (or_now (e_endTime data) now)\<rparr> ?st1")
      from createActivity_store_ok[OF ok1 c] False Inr None c show ?thesis
        by (cases r) (simp_all add: meeting_completed_def Let_def)
    next
      case (Some a)
      obtain r st2 where c: "updateActivity (a_id a) (completed_update now data a) ?st1 = (r, st2)"
        by (cases "updateActivity (a_id a) (completed_update now data a) ?st1")
      from updateActivity_store_ok[OF ok1 c] False Inr Some c show ?thesis
        by (cases r) (simp_all add: meeting_completed_def Let_def)
    qed
  qed
qed

lemma join_user_room_store_ok: "store_ok (join_user_room sock u st) = store_ok st"
  by (simp add: join_user_room_def socket_join_def store_ok_def console_log_def)

lemma socket_disconnect_store_ok: "store_ok (socket_disconnect sock st) = store_ok st"
  by (simp add: socket_disconnect_def handleDisconnect_def socket_leave_all_def store_ok_def
        console_log_def)

lemma handle_store_ok: "store_ok st \<Longrightarrow> store_ok (handle x st)"
  by (cases "message x")
     (simp_all add: handle_def meeting_started_store_ok meeting_completed_store_ok
        join_user_room_store_ok socket_disconnect_store_ok)

lemma run_store_ok: "store_ok st \<Longrightarrow> store_ok (run xs st)"
  by (induction xs arbitrary: st) (simp_all add: handle_store_ok)

subsection \<open>What the handlers do to the rooms\<close>

lemma rooms_console_log [simp]: "rooms (console_log s st) = rooms st"
  by (simp add: console_log_def)

lemma rooms_console_error [simp]: "rooms (console_error s st) = rooms st"
  by (simp add: console_error_def)

lemma rooms_socket_to_emit [simp]: "rooms (socket_to_emit sock room name p st) = rooms st"
  by (simp add: socket_to_emit_def)

lemma rooms_publish_completed [simp]: "rooms (publish_completed sock u r st) = rooms st"
  by (cases r) (simp_all add: publish_completed_def Let_def)







subsection \<open>Publishing\<close>





subsection \<open>The example states\<close>

lemma sprint_open_eq:
  "sprint_open =
     socket_to_emit 1 (''user-'' @ alice) ''activity-updated''
       (started_payload (users empty_state)
          \<lparr>a_id = 0, userId = ObjectId alice, meetingId = ''m1'',
           meetingName = ''Sprint Planning'', atype = T_created, status = S_in_progress,
           duration = None, participants = [], startTime = Some 100, endTime = None,
           createdAt = 101\<rparr>)
       (empty_state\<lparr>docs := [\<lparr>a_id = 0, userId = ObjectId alice, meetingId = ''m1'',
           meetingName = ''Sprint Planning'', atype = T_created, status = S_in_progress,
           duration = None, participants = [], startTime = Some 100, endTime = None,
           createdAt = 101\<rparr>], next_id := Suc 0\<rparr>)"
proof -
  have "meeting_started 1 100 101 sprint_started empty_state =
          socket_to_emit 1 (''user-'' @ alice) ''activity-updated''
       (started_payload (users empty_state)
          \<lparr>a_id = 0, userId = ObjectId alice, meetingId = ''m1'',
           meetingName = ''Sprint Planning'', atype = T_created, status = S_in_progress,
           duration = None, participants = [], startTime = Some 100, endTime = None,
           createdAt = 101\<rparr>)
       (empty_state\<lparr>docs := [\<lparr>a_id = 0, userId = ObjectId alice, meetingId = ''m1'',
           meetingName = ''Sprint Planning'', atype = T_created, status = S_in_progress,
           duration = None, participants = [], startTime = Some 100, endTime = None,
           createdAt = 101\<rparr>], next_id := Suc 0\<rparr>)"
    by (subst meeting_started_ok[where u = alice and m = "''m1''" and user = "ObjectId alice"])
       (simp_all add: sprint_started_def empty_state_def cast_alice alice_nonempty or_else_def
          or_now_def Let_def)
  then show ?thesis by (simp only: sprint_open_def)
qed

lemma sprint_open_docs:
  "docs sprint_open =
     [\<lparr>a_id = 0, userId = ObjectId alice, meetingId = ''m1'', meetingName = ''Sprint Planning'',
       atype = T_created, status = S_in_progress, duration = None, participants = [],
       startTime = Some 100, endTime = None, createdAt = 101\<rparr>]"
  by (simp add: sprint_open_eq empty_state_def)

lemma sprint_open_state: "db_up sprint_open" "next_id sprint_open = 1"
  by (simp_all add: sprint_open_eq empty_state_def socket_to_emit_def)

lemma sprint_open_ok: "store_ok sprint_open"
  unfolding sprint_open_def by (rule meeting_started_store_ok[OF store_ok_empty])









section \<open>Completion of an open session\<close>






section \<open>The frame of the in-place update\<close>

text \<open>
  Claim C9. The update made when a \<^verbatim>\<open>meeting-completed\<close> event merges into an open
  session leaves every other document as it was, and in the merged document it can change
  only type, status, duration, participants, endTime and meetingName: id, userId,
  meetingId, startTime and createdAt are what they were. The value of createdAt at that
  position stays the same through every later sequence of events.
\<close>

theorem completed_update_frame:
  assumes "db_up st" and "store_ok st"
    and "e_userId data = Some u" and "u \<noteq> []"
    and "e_meetingId data = Some m" and "m \<noteq> []"
    and "\<exists>d \<in> set (docs st). open_session u m d"
  shows "let st' = meeting_completed sock now stamp data st in
         \<exists>k < length (docs st).
           open_session u m (docs st ! k) \<and>
           length (docs st') = length (docs st) \<and>
           (\<forall>j < length (docs st). j \<noteq> k \<longrightarrow> docs st' ! j = docs st ! j) \<and>
           docs st' ! k =
             (docs st ! k)\<lparr>atype := atype (docs st' ! k), status := status (docs st' ! k),
                           duration := duration (docs st' ! k),
                           participants := participants (docs st' ! k),
                           endTime := endTime (docs st' ! k),
                           meetingName := meetingName (docs st' ! k)\<rparr> \<and>
           a_id (docs st' ! k) = a_id (docs st ! k) \<and>
           userId (docs st' ! k) = userId (docs st ! k) \<and>
           meetingId (docs st' ! k) = meetingId (docs st ! k) \<and>
           startTime (docs st' ! k) = startTime (docs st ! k) \<and>
           createdAt (docs st' ! k) = createdAt (docs st ! k) \<and>
           (\<forall>xs. createdAt (docs (run xs st') ! k) = createdAt (docs st ! k))"
proof -
  let ?st' = "meeting_completed sock now stamp data st"
  from assms(7) obtain user where user: "castObjectId u = Some user"
    by (auto simp: open_session_def)
  from picked_open_session[OF user assms(7)] obtain k where k: "k < length (docs st)"
    and f: "one_of st (filter (matches user m T_created) (docs st)) = Some (docs st ! k)"
    and o: "open_session u m (docs st ! k)" by blast
  have d: "docs ?st' = docs st \<or>
           (\<exists>ps. docs ?st' =
              (docs st)[k := apply_update (completed_update now data (docs st ! k)) ps (docs st ! k)])"
  proof (cases "cast_update (completed_update now data (docs st ! k))")
    case None
    from meeting_completed_refused(1)[OF assms(1,3-6) user f None] show ?thesis by simp
  next
    case (Some ps)
    from docs_merge[OF assms(1-6) user k f Some] show ?thesis by blast
  qed
  have 1: "length (docs ?st') = length (docs st)"
    using d by auto
  have 2: "\<forall>j < length (docs st). j \<noteq> k \<longrightarrow> docs ?st' ! j = docs st ! j"
    using d by auto
  have 3: "docs ?st' ! k = docs st ! k \<or>
           (\<exists>ps. docs ?st' ! k =
                    apply_update (completed_update now data (docs st ! k)) ps (docs st ! k))"
    using d k by auto
  have 4: "\<forall>xs. createdAt (docs (run xs ?st') ! k) = createdAt (docs st ! k)"
  proof
    fix xs
    have "keeps_fixed_part st (run xs ?st')"
      by (rule keeps_fixed_part_trans[OF meeting_completed_keeps run_keeps])
    from keeps_fixed_part_nth[OF this k]
    show "createdAt (docs (run xs ?st') ! k) = createdAt (docs st ! k)"
      by (simp add: fixed_part_def)
  qed
  have 5: "docs ?st' ! k =
             (docs st ! k)\<lparr>atype := atype (docs ?st' ! k), status := status (docs ?st' ! k),
                           duration := duration (docs ?st' ! k),
                           participants := participants (docs ?st' ! k),
                           endTime := endTime (docs ?st' ! k),
                           meetingName := meetingName (docs ?st' ! k)\<rparr>"
    and 6: "a_id (docs ?st' ! k) = a_id (docs st ! k)"
           "userId (docs ?st' ! k) = userId (docs st ! k)"
           "meetingId (docs ?st' ! k) = meetingId (docs st ! k)"
           "startTime (docs ?st' ! k) = startTime (docs st ! k)"
           "createdAt (docs ?st' ! k) = createdAt (docs st ! k)"
    using 3 by (auto simp: apply_update_def)
  show ?thesis
    unfolding Let_def
    by (rule exI[of _ k]) (intro conjI k o 1 2 4 5 6)
qed

theorem completed_update_frame_witness:
  "db_up sprint_open \<and> store_ok sprint_open \<and>
   e_userId sprint_completed = Some alice \<and> e_meetingId sprint_completed = Some ''m1'' \<and>
   (\<exists>d \<in> set (docs sprint_open). open_session alice ''m1'' d) \<and>
   (let st' = meeting_completed 1 200 201 sprint_completed sprint_open in
    \<exists>k < length (docs sprint_open).
      open_session alice ''m1'' (docs sprint_open ! k) \<and>
      length (docs st') = length (docs sprint_open) \<and>
      (\<forall>j < length (docs sprint_open). j \<noteq> k \<longrightarrow> docs st' ! j = docs sprint_open ! j) \<and>
      docs st' ! k =
        (docs sprint_open ! k)\<lparr>atype := atype (docs st' ! k), status := status (docs st' ! k),
                                duration := duration (docs st' ! k),
                                participants := participants (docs st' ! k),
                                endTime := endTime (docs st' ! k),
                                meetingName := meetingName (docs st' ! k)\<rparr> \<and>
      a_id (docs st' ! k) = a_id (docs sprint_open ! k) \<and>
      userId (docs st' ! k) = userId (docs sprint_open ! k) \<and>
      meetingId (docs st' ! k) = meetingId (docs sprint_open ! k) \<and>
      startTime (docs st' ! k) = startTime (docs sprint_open ! k) \<and>
      createdAt (docs st' ! k) = createdAt (docs sprint_open ! k) \<and>
      (\<forall>xs. createdAt (docs (run xs st') ! k) = createdAt (docs sprint_open ! k)))"
proof -
  have h1: "db_up sprint_open" by (rule sprint_open_state)
  have h2: "store_ok sprint_open" by (rule sprint_open_ok)
  have h3: "e_userId sprint_completed = Some alice" by (simp add: sprint_completed_def)
  have h4: "alice \<noteq> []" by (rule alice_nonempty)
  have h5: "e_meetingId sprint_completed = Some ''m1''" by (simp add: sprint_completed_def)
  have h6: "''m1'' \<noteq> []" by simp
  have h7: "\<exists>d \<in> set (docs sprint_open). open_session alice ''m1'' d"
    by (simp add: sprint_open_docs open_session_def cast_alice)
  from completed_update_frame[OF h1 h2 h3 h4 h5 h6 h7, of 1 200 201]
  show ?thesis using h1 h2 h3 h5 h7 by blast
qed

section \<open>Creation of a record\<close>










section \<open>Events without a user id or a meeting id\<close>

text \<open>
  Claim C5. A \<^verbatim>\<open>meeting-started\<close> or \<^verbatim>\<open>meeting-completed\<close> event whose user id or
  meeting id is absent or empty changes nothing but the console: the collection, the
  rooms and the outbox are as before, the handler returns normally, and the failure is
  reported as one \<^verbatim>\<open>console.error\<close> line.
\<close>

theorem invalid_event_dropped:
  assumes "e_userId data = None \<or> e_userId data = Some [] \<or>
           e_meetingId data = None \<or> e_meetingId data = Some []"
  shows "meeting_started sock now stamp data st =
           st\<lparr>console := console st @ [Err ''Missing required data for meeting-started event'']\<rparr> \<and>
         meeting_completed sock now stamp data st =
           st\<lparr>console := console st @ [Err ''Missing required data for meeting-completed event'']\<rparr>"
proof -
  from assms have "\<not> truthy (e_meetingId data) \<or> \<not> truthy (e_userId data)" by auto
  then show ?thesis
    by (simp add: meeting_started_def meeting_completed_def console_error_def)
qed

theorem invalid_event_dropped_witness:
  "(e_userId nameless_user = None \<or> e_userId nameless_user = Some [] \<or>
    e_meetingId nameless_user = None \<or> e_meetingId nameless_user = Some []) \<and>
   meeting_started 1 100 101 nameless_user sprint_open =
     sprint_open\<lparr>console := console sprint_open @
                     [Err ''Missing required data for meeting-started event'']\<rparr> \<and>
   meeting_completed 1 100 101 nameless_user sprint_open =
     sprint_open\<lparr>console := console sprint_open @
                     [Err ''Missing required data for meeting-completed event'']\<rparr>"
proof -
  have h: "e_userId nameless_user = None \<or> e_userId nameless_user = Some [] \<or>
           e_meetingId nameless_user = None \<or> e_meetingId nameless_user = Some []"
    by (simp add: nameless_user_def)
  from invalid_event_dropped[OF h, of 1 100 101 sprint_open] h show ?thesis by blast
qed

section \<open>Publishing and rooms\<close>




text \<open>
  Claim C7, as the code has it. Joining the room of user \<open>u\<close> adds the socket to the
  channels of \<open>u\<close> and leaves the channels of every other user as they were: an earlier
  subscription of the same socket is kept, not replaced.
\<close>

theorem join_adds_without_replacing:
  "channelsFor (join_user_room sock u st) u = insert sock (channelsFor st u) \<and>
   (\<forall>v. v \<noteq> u \<longrightarrow> channelsFor (join_user_room sock u st) v = channelsFor st v)"
  by (auto simp: channelsFor_def join_user_room_def socket_join_def console_log_def)

theorem join_adds_without_replacing_witness:
  "''u1'' \<noteq> ''u2'' \<and>
   channelsFor (join_user_room 1 ''u2'' (join_user_room 1 ''u1'' empty_state)) ''u2'' =
     insert 1 (channelsFor (join_user_room 1 ''u1'' empty_state) ''u2'') \<and>
   channelsFor (join_user_room 1 ''u2'' (join_user_room 1 ''u1'' empty_state)) ''u1'' =
     channelsFor (join_user_room 1 ''u1'' empty_state) ''u1''"
  using join_adds_without_replacing[of 1 "''u2''" "join_user_room 1 ''u1'' empty_state"]
  by simp

text \<open>
  The claim as written, that a channel is subscribed to at most one user, fails: after
  joining the rooms of \<^verbatim>\<open>u1\<close> and then \<^verbatim>\<open>u2\<close>, socket 1 is a channel of both.
\<close>

theorem join_second_user_counterexample:
  "''u1'' \<noteq> ''u2'' \<and>
   1 \<in> channelsFor (join_user_room 1 ''u2'' (join_user_room 1 ''u1'' empty_state)) ''u1'' \<and>
   1 \<in> channelsFor (join_user_room 1 ''u2'' (join_user_room 1 ''u1'' empty_state)) ''u2''"
  by (simp add: channelsFor_def join_user_room_def socket_join_def console_log_def
        empty_state_def)

section \<open>Disconnect\<close>



end
